theory Spec2Isabelle
  imports Main "HOL-Library.AList" "HOL-Library.Multiset"
begin

section \<open>The board reducer of \<^verbatim>\<open>frontend/src/Views/Board.tsx\<close>\<close>

text \<open>
  The board is kept by the reducer \<^verbatim>\<open>dragReducer\<close> (wrapped in immer's \<^verbatim>\<open>produce\<close>) together
  with three module-level variables that the reducer and the click handlers read and
  write: \<^verbatim>\<open>test\<close>, \<^verbatim>\<open>issueIdIncrement\<close> and \<^verbatim>\<open>issueListsNames\<close>.

  Modelling decisions.
  \<^item> An \<^verbatim>\<open>Issue\<close> is a record. An array element is an \<open>issue option\<close>: \<open>None\<close> is
    JavaScript's \<^verbatim>\<open>undefined\<close>, which \<^verbatim>\<open>splice\<close> can insert into a list.
  \<^item> A property value (a slot) is an \<open>elem list option\<close>: \<open>None\<close> is \<^verbatim>\<open>undefined\<close>,
    \<open>Some xs\<close> is an array. Arrays are always truthy, \<^verbatim>\<open>undefined\<close> is falsy.
  \<^item> An object is an association list in insertion order (the order JavaScript keeps
    for string keys); a property is read with \<open>map_of\<close> and written with
    \<open>AList.update\<close>, which replaces in place or appends at the end.
  \<^item> The reducer state is either such an object or, after \<^verbatim>\<open>UPDATE\<close> and
    \<^verbatim>\<open>UPDATELISTS\<close>, an array of objects (these two cases return the result of
    \<^verbatim>\<open>issueListsNames.map\<close>).
  \<^item> A \<^verbatim>\<open>MOVE\<close> may name any string. A name that is no own property of the state but
    a member of \<^verbatim>\<open>Object.prototype\<close> reads as that member, and the reducer throws; this
    is modelled. The other reads of the state use \<^verbatim>\<open>items\<close>, \<^verbatim>\<open>items2\<close>, \<^verbatim>\<open>items3\<close> and
    the names in \<^verbatim>\<open>issueListsNames\<close>, which all start with \<^verbatim>\<open>items\<close> in every state the
    program reaches.
  \<^item> \<^verbatim>\<open>issueIdIncrement\<close> is a JavaScript number that starts at 6 and only changes by
    \<^verbatim>\<open>++\<close>. It is a \<open>nat\<close> that \<^verbatim>\<open>++\<close> leaves unchanged once it is \<open>2^53\<close>, as the
    floating-point addition does. Up to there the number prints in decimal digits.
  \<^item> The state is a value: immer's \<^verbatim>\<open>produce\<close> hands the recipe a draft and returns a
    new state. For the properties about writing in place and about sharing, the last
    part of the definitions gives the reducer a second time, over arrays that live at
    the addresses of a store; the properties relate the two.
  \<^item> The module-level variables are passed in and returned explicitly. Exceptions are
    values of type \<open>error\<close>.
\<close>

subsection \<open>Data\<close>

record issue =
  issue_id :: string
  content :: string

type_synonym elem = "issue option"

type_synonym slot = "elem list option"

type_synonym obj = "(string \<times> slot) list"

datatype state = Obj obj | ObjArr "obj list"

text \<open>
  The actions, by their \<^verbatim>\<open>type\<close> tag. \<open>MOVE from to fromIndex toIndex\<close>;
  \<open>ADDITEM pass myIndex myData\<close>; \<open>UPDATE myData1 myData2 myData3\<close>;
  \<open>UPDATELISTS me\<close>; \<open>OTHER tag\<close> is an action with any other tag.
\<close>

datatype action =
    MOVE string string int int
  | ADDITEM string nat slot
  | UPDATE slot slot slot
  | UPDATELISTS state
  | OTHER string

text \<open>
  \<open>Error\<close> is the \<^verbatim>\<open>throw new Error()\<close> of the default case.

  \<open>InheritedMember\<close> is the exception of a \<open>MOVE\<close> that names a member of
  \<^verbatim>\<open>Object.prototype\<close>. For a function member such as \<^verbatim>\<open>constructor\<close> it is the
  \<^verbatim>\<open>TypeError\<close> that JavaScript raises when \<^verbatim>\<open>.splice\<close> is called on a value without that
  method. For \<^verbatim>\<open>__proto__\<close> it is that \<^verbatim>\<open>TypeError\<close> or, where immer's draft passes the
  assignment of line 32 on to the inherited setter, immer's error for a change of
  prototype.

  \<open>ArrayDraftProperty\<close> is raised by immer in its development build when a recipe
  assigns a named property to the draft of an array, as line 32 does on an array-shaped
  state. The model is that of the development build: immer's production build skips
  this check and returns an array that carries a named property, a value outside
  \<open>state\<close>.
\<close>

datatype error = Error | InheritedMember | ArrayDraftProperty

record globals =
  test :: "nat \<Rightarrow> slot"
  issueIdIncrement :: nat
  issueListsNames :: "string list"

subsection \<open>Number to string\<close>

definition digit :: "nat \<Rightarrow> char" where
  "digit d = ''0123456789'' ! d"

fun toString :: "nat \<Rightarrow> string" where
  "toString n = (if n < 10 then [digit n] else toString (n div 10) @ [digit (n mod 10)])"

declare toString.simps [simp del]

text \<open>
  \<^verbatim>\<open>issueIdIncrement++\<close>. The counter holds an integer between 6 and \<open>2^53\<close>. Below
  \<open>2^53\<close> the sum is exact; \<open>2^53 + 1\<close> is no floating-point number and rounds back to
  \<open>2^53\<close>.
\<close>

definition limit :: nat where
  "limit = 2 ^ 53"

definition increment :: "nat \<Rightarrow> nat" where
  "increment n = (if n < limit then n + 1 else n)"

subsection \<open>\<^verbatim>\<open>Array.prototype.splice\<close>\<close>

text \<open>
  The start index is relative: a negative one counts from the end, and the result is
  clamped to \<open>0 .. length\<close>.
\<close>

definition rel_index :: "int \<Rightarrow> nat \<Rightarrow> nat" where
  "rel_index i len = (if i < 0 then nat (max (int len + i) 0) else min (nat i) len)"

text \<open>\<open>splice xs start deleteCount items\<close> returns the removed elements and the new array.\<close>

definition splice :: "'a list \<Rightarrow> int \<Rightarrow> nat \<Rightarrow> 'a list \<Rightarrow> 'a list \<times> 'a list" where
  "splice xs start deleteCount items =
     (let s = rel_index start (length xs);
          n = min deleteCount (length xs - s)
      in (take n (drop s xs), take s xs @ items @ drop (s + n) xs))"

text \<open>\<^verbatim>\<open>const [removed] = ...\<close>: the first element, \<^verbatim>\<open>undefined\<close> for an empty array.\<close>

definition first_of :: "elem list \<Rightarrow> elem" where
  "first_of rs = (case rs of [] \<Rightarrow> None | r # _ \<Rightarrow> r)"

subsection \<open>The reducer\<close>

text \<open>
  The members of \<^verbatim>\<open>Object.prototype\<close>, which every object state inherits (ECMAScript,
  Object.prototype and its legacy accessors). \<open>inherited s k\<close>: the state has no own
  property \<open>k\<close>, and \<^verbatim>\<open>state[k]\<close> reads a member of the prototype. Such a value is truthy
  and has no \<^verbatim>\<open>splice\<close>.
\<close>

definition objectPrototypeNames :: "string list" where
  "objectPrototypeNames =
     [''constructor'', ''hasOwnProperty'', ''isPrototypeOf'', ''propertyIsEnumerable'',
      ''toLocaleString'', ''toString'', ''valueOf'', ''__proto__'', ''__defineGetter__'',
      ''__defineSetter__'', ''__lookupGetter__'', ''__lookupSetter__'']"

definition inherited :: "(string \<times> 'a) list \<Rightarrow> string \<Rightarrow> bool" where
  "inherited s k \<longleftrightarrow> map_of s k = None \<and> k \<in> set objectPrototypeNames"

text \<open>\<^verbatim>\<open>state[k] || []\<close> on an object, for a name that is not inherited.\<close>

definition or_empty :: "obj \<Rightarrow> string \<Rightarrow> elem list" where
  "or_empty s k = (case map_of s k of Some (Some xs) \<Rightarrow> xs | _ \<Rightarrow> [])"

text \<open>
  \<^verbatim>\<open>state[k]\<close> for a name that no prototype defines: \<^verbatim>\<open>undefined\<close> for a missing
  property, and for every such name on an array of objects.
\<close>

fun getProp :: "state \<Rightarrow> string \<Rightarrow> slot" where
  "getProp (Obj s) k = (case map_of s k of Some v \<Rightarrow> v | None \<Rightarrow> None)"
| "getProp (ObjArr _) k = None"

text \<open>
  The \<^verbatim>\<open>MOVE\<close> case, lines 32 to 35, on the draft of an object, when neither name is
  inherited. Both splices work on the array stored in the draft at that moment, so
  \<open>from = to\<close> needs no special case.
\<close>

definition move :: "obj \<Rightarrow> string \<Rightarrow> string \<Rightarrow> int \<Rightarrow> int \<Rightarrow> obj" where
  "move s frm dst fromIndex toIndex =
     (let s1 = AList.update frm (Some (or_empty s frm)) s;
          s2 = AList.update dst (Some (or_empty s1 dst)) s1;
          (rs, rest) = splice (or_empty s2 frm) fromIndex 1 [];
          s3 = AList.update frm (Some rest) s2;
          removed = first_of rs;
          (_, ins) = splice (or_empty s3 dst) toIndex 0 [removed]
      in AList.update dst (Some ins) s3)"

text \<open>The object pushed by lines 49 to 52, for the counter value \<open>n\<close>.\<close>

definition newIssue :: "nat \<Rightarrow> issue" where
  "newIssue n = \<lparr>issue_id = toString n, content = ''Test'' @ toString n\<rparr>"

text \<open>The \<^verbatim>\<open>ADDITEM\<close> case, lines 39 to 55.\<close>

definition additem :: "globals \<Rightarrow> nat \<Rightarrow> slot \<Rightarrow> globals \<times> state" where
  "additem g myIndex myData =
     (let copied = (case myData of None \<Rightarrow> [] | Some items \<Rightarrow> items);
          n = increment (issueIdIncrement g);
          t = (test g)(myIndex := Some (copied @ [Some (newIssue n)]));
          g' = g\<lparr>test := t, issueIdIncrement := n\<rparr>
      in (g', Obj [(''items'', t 0), (''items2'', t 1), (''items3'', t 2)]))"

text \<open>The \<^verbatim>\<open>UPDATE\<close> case, lines 58 to 64.\<close>

definition update_case :: "globals \<Rightarrow> slot \<Rightarrow> slot \<Rightarrow> slot \<Rightarrow> globals \<times> state" where
  "update_case g myData1 myData2 myData3 =
     (let t = (test g)(0 := myData1, 1 := myData2, 2 := myData3)
      in (g\<lparr>test := t\<rparr>, ObjArr (map (\<lambda>item. [(item, t 0)]) (issueListsNames g))))"

text \<open>The \<^verbatim>\<open>UPDATELISTS\<close> case, lines 67 to 72.\<close>

definition updatelists :: "globals \<Rightarrow> state \<Rightarrow> state" where
  "updatelists g st = ObjArr (map (\<lambda>item. [(item, getProp st item)]) (issueListsNames g))"

text \<open>
  The reducer. In the \<^verbatim>\<open>MOVE\<close> case an inherited function member survives lines 32 and
  33 (\<^verbatim>\<open>state[k] || []\<close> keeps the truthy member), and \<^verbatim>\<open>.splice\<close> then throws at line 34
  (for \<open>from\<close>) or at line 35 (for \<open>to\<close>); \<^verbatim>\<open>produce\<close> drops the draft, so nothing else is
  left of the dispatch.
\<close>

fun dragReducer :: "globals \<Rightarrow> state \<Rightarrow> action \<Rightarrow> error + globals \<times> state" where
  "dragReducer g (Obj s) (MOVE frm dst fromIndex toIndex) =
     (if inherited s frm \<or> inherited s dst then Inl InheritedMember
      else Inr (g, Obj (move s frm dst fromIndex toIndex)))"
| "dragReducer g (ObjArr a) (MOVE frm dst fromIndex toIndex) = Inl ArrayDraftProperty"
| "dragReducer g st (ADDITEM pass myIndex myData) = Inr (additem g myIndex myData)"
| "dragReducer g st (UPDATE myData1 myData2 myData3) = Inr (update_case g myData1 myData2 myData3)"
| "dragReducer g st (UPDATELISTS me) = Inr (g, updatelists g st)"
| "dragReducer g st (OTHER tag) = Inl Error"

subsection \<open>The module's initial values and the click handlers\<close>

definition data :: "elem list" where
  "data =
     [Some \<lparr>issue_id = ''1'', content = ''This list is buggy''\<rparr>,
      Some \<lparr>issue_id = ''2'', content = ''I hate lists like this...''\<rparr>,
      Some \<lparr>issue_id = ''3'', content = ''Why would react do this to me''\<rparr>,
      Some \<lparr>issue_id = ''4'', content = ''HAMBURGER PLEAAAAAAAAAAAAAAAASE''\<rparr>]"

definition initialState :: state where
  "initialState = Obj [(''items'', Some data)]"

definition initialGlobals :: globals where
  "initialGlobals =
     \<lparr>test = (\<lambda>_. None), issueIdIncrement = 6,
      issueListsNames = [''items'', ''items2'', ''items3'']\<rparr>"

text \<open>
  The \<^verbatim>\<open>Add Issue List\<close> button, lines 104 to 107: the name is built from the counter
  before the increment, then \<^verbatim>\<open>UPDATELISTS\<close> is dispatched.
\<close>

definition addListClick :: "globals \<Rightarrow> state \<Rightarrow> error + globals \<times> state" where
  "addListClick g st =
     (let c = issueIdIncrement g;
          g' = g\<lparr>issueListsNames := issueListsNames g @ [''items'' @ toString c],
                 issueIdIncrement := increment c\<rparr>
      in dragReducer g' st (UPDATELISTS st))"

text \<open>
  The \<^verbatim>\<open>Add Issue\<close> button, lines 139 to 147. Every rendered list has one; \<open>index\<close> is
  the position of the list whose button is clicked, a parameter of the function that
  builds the handler (line 133), which the handler does not read. The two dispatches
  take their payloads from the state of the current render.
\<close>

definition addIssueClick :: "nat \<Rightarrow> globals \<Rightarrow> state \<Rightarrow> error + globals \<times> state" where
  "addIssueClick index g st =
     (case dragReducer g st
             (UPDATE (getProp st ''items'') (getProp st ''items2'') (getProp st ''items3'')) of
        Inl e \<Rightarrow> Inl e
      | Inr (g1, st1) \<Rightarrow> dragReducer g1 st1 (ADDITEM ''items'' 0 (getProp st ''items'')))"

subsection \<open>Notions used by the properties\<close>

text \<open>\<open>is_list s k\<close>: the object has a property \<open>k\<close> whose value is an array.\<close>

definition is_list :: "obj \<Rightarrow> string \<Rightarrow> bool" where
  "is_list s k = (case map_of s k of Some (Some _) \<Rightarrow> True | _ \<Rightarrow> False)"

text \<open>
  \<open>movable\<close>: both names are lists of the state and \<open>fromIndex\<close> is an index into the
  \<open>from\<close> list. Nothing is asked of \<open>toIndex\<close>.
\<close>

definition movable :: "obj \<Rightarrow> string \<Rightarrow> string \<Rightarrow> int \<Rightarrow> bool" where
  "movable s frm dst fromIndex \<longleftrightarrow>
     is_list s frm \<and> is_list s dst \<and>
     0 \<le> fromIndex \<and> fromIndex < int (length (or_empty s frm))"

text \<open>
  A valid move is movable, and \<open>toIndex\<close> is an insertion position of the \<open>to\<close> list as it
  stands when the issue is inserted, that is, after the removal: \<open>0 .. length\<close> of the
  \<open>to\<close> list, and \<open>0 .. length - 1\<close> when \<open>from = to\<close>.
\<close>

definition valid_move :: "obj \<Rightarrow> string \<Rightarrow> string \<Rightarrow> int \<Rightarrow> int \<Rightarrow> bool" where
  "valid_move s frm dst fromIndex toIndex \<longleftrightarrow>
     movable s frm dst fromIndex \<and>
     0 \<le> toIndex \<and>
     toIndex \<le> int (length (or_empty s dst)) - (if frm = dst then 1 else 0)"

text \<open>All array elements of an object, list after list, and the number of issues among them.\<close>

definition all_elems :: "obj \<Rightarrow> elem list" where
  "all_elems s = concat (map (\<lambda>(k, v). case v of None \<Rightarrow> [] | Some xs \<Rightarrow> xs) s)"

definition total_issues :: "obj \<Rightarrow> nat" where
  "total_issues s = length (filter (\<lambda>e. e \<noteq> None) (all_elems s))"

text \<open>Removing the element at a position, and inserting one at a position.\<close>

definition remove_at :: "'a list \<Rightarrow> nat \<Rightarrow> 'a list" where
  "remove_at xs i = take i xs @ drop (Suc i) xs"

definition insert_at :: "'a list \<Rightarrow> nat \<Rightarrow> 'a \<Rightarrow> 'a list" where
  "insert_at xs i x = take i xs @ x # drop i xs"

text \<open>
  The position at which the second splice of a move inserts: \<open>toIndex\<close>, relative and
  clamped, in the \<open>to\<close> list as it stands after the removal.
\<close>

definition landing :: "obj \<Rightarrow> string \<Rightarrow> string \<Rightarrow> int \<Rightarrow> int \<Rightarrow> nat" where
  "landing s frm dst fromIndex toIndex =
     rel_index toIndex
       (length (if frm = dst then remove_at (or_empty s frm) (nat fromIndex)
                else or_empty s dst))"

text \<open>The board \<^verbatim>\<open>{A: [x, y], B: []}\<close> of the move scenario, and two of the initial issues.\<close>

definition boardAB :: "elem \<Rightarrow> elem \<Rightarrow> obj" where
  "boardAB x y = [(''A'', Some [x, y]), (''B'', Some [])]"

definition issue1 :: issue where
  "issue1 = \<lparr>issue_id = ''1'', content = ''This list is buggy''\<rparr>"

definition issue2 :: issue where
  "issue2 = \<lparr>issue_id = ''2'', content = ''I hate lists like this...''\<rparr>"

text \<open>The first two issues that \<^verbatim>\<open>ADDITEM\<close> creates when the counter starts at 6.\<close>

definition issue7 :: issue where
  "issue7 = \<lparr>issue_id = ''7'', content = ''Test7''\<rparr>"


subsection \<open>Sequences of clicks and the states the program reaches\<close>








text \<open>
  The array behind a slot, and the state after one click on \<^verbatim>\<open>Add Issue\<close> with the
  counter at \<open>c\<close>.
\<close>

definition listOf :: "slot \<Rightarrow> elem list" where
  "listOf v = (case v of None \<Rightarrow> [] | Some xs \<Rightarrow> xs)"

definition afterAddIssue :: "nat \<Rightarrow> state \<Rightarrow> obj" where
  "afterAddIssue c st =
     [(''items'', Some (listOf (getProp st ''items'') @ [Some (newIssue (increment c))])),
      (''items2'', getProp st ''items2''), (''items3'', getProp st ''items3'')]"

subsection \<open>Arrays in a store\<close>

text \<open>
  In the definitions above a list is a value, so they cannot say whether the reducer
  writes into an array of its input, nor which arrays the result shares with it. Below,
  an array lives at an address of a store; a property of the state, a slot of \<^verbatim>\<open>test\<close>
  and a payload hold \<^verbatim>\<open>undefined\<close> or an address. Issues are never written to and stay
  values. The state object stays a value too: \<open>ADDITEM\<close>, \<open>UPDATE\<close> and \<open>UPDATELISTS\<close>
  return an object or array literal, and in \<open>MOVE\<close> the recipe assigns to immer's draft.
\<close>

type_synonym addr = nat



record store =
  cells :: "addr \<Rightarrow> elem list"
  nextAddr :: addr


text \<open>\<^verbatim>\<open>new Array()\<close> and \<^verbatim>\<open>[]\<close>: an empty array at an address not used so far.\<close>

definition newArray :: "store \<Rightarrow> addr \<times> store" where
  "newArray h =
     (nextAddr h, h\<lparr>cells := (cells h)(nextAddr h := []), nextAddr := Suc (nextAddr h)\<rparr>)"

text \<open>\<^verbatim>\<open>a.push(x)\<close> and \<^verbatim>\<open>a.splice(start, deleteCount, ...items)\<close> write the array at \<open>a\<close>.\<close>

definition push :: "store \<Rightarrow> addr \<Rightarrow> elem \<Rightarrow> store" where
  "push h a x = h\<lparr>cells := (cells h)(a := cells h a @ [x])\<rparr>"






















section \<open>Properties\<close>

subsection \<open>Splice and object updates\<close>

lemma rel_index_valid: "0 \<le> i \<Longrightarrow> rel_index i len = min (nat i) len"
  by (simp add: rel_index_def)

lemma splice_remove_valid:
  assumes "0 \<le> i" and "nat i < length xs"
  shows "splice xs i (Suc 0) [] = ([xs ! nat i], take (nat i) xs @ drop (Suc (nat i)) xs)"
proof -
  have r: "rel_index i (length xs) = nat i"
    using assms by (simp add: rel_index_valid)
  have n: "min (Suc 0) (length xs - nat i) = Suc 0"
    using assms by simp
  have t: "take (Suc 0) (drop (nat i) xs) = [xs ! nat i]"
    using assms by (simp add: take_Suc_conv_app_nth)
  show ?thesis
    unfolding splice_def r Let_def n t by simp
qed

lemma rel_index_le: "rel_index i len \<le> len"
  by (auto simp: rel_index_def)

lemma splice_insert_rel:
  "splice xs i 0 [x] = ([], insert_at xs (rel_index i (length xs)) x)"
  by (simp add: splice_def Let_def insert_at_def)

lemma or_empty_update [simp]: "or_empty (AList.update k (Some xs) s) k = xs"
  by (simp add: or_empty_def update_conv')

lemma or_empty_update_other [simp]:
  "k' \<noteq> k \<Longrightarrow> or_empty (AList.update k v s) k' = or_empty s k'"
  by (simp add: or_empty_def update_conv')

lemma or_empty_Some: "map_of s k = Some (Some xs) \<Longrightarrow> or_empty s k = xs"
  by (simp add: or_empty_def)

lemma is_listD: "is_list s k \<Longrightarrow> map_of s k = Some (Some (or_empty s k))"
  by (auto simp: is_list_def or_empty_def split: option.splits)

lemma all_elems_update:
  "map_of s k = Some (Some xs) \<Longrightarrow>
   mset (all_elems (AList.update k (Some ys) s)) + mset xs = mset (all_elems s) + mset ys"
  by (induction s) (auto simp: all_elems_def)

lemma update_restore2:
  "k \<noteq> k' \<Longrightarrow> map_of s k = Some v \<Longrightarrow> map_of s k' = Some v' \<Longrightarrow>
   AList.update k v (AList.update k' v' (AList.update k w s)) = s"
  by (induction s) (auto simp: update_triv)

lemma take_insert_nth: "i \<le> length xs \<Longrightarrow> (take i xs @ x # drop i xs) ! i = x"
  by (simp add: nth_append)

lemma remove_inserted:
  "i \<le> length xs \<Longrightarrow>
   take i (take i xs @ x # drop i xs) @ drop (Suc i) (take i xs @ x # drop i xs) = xs"
  by (simp add: min_def)

lemma insert_removed: "i < length xs \<Longrightarrow> take i xs @ xs ! i # drop (Suc i) xs = xs"
  by (simp add: id_take_nth_drop [symmetric])

lemma length_remove_at: "i < length xs \<Longrightarrow> length (remove_at xs i) = length xs - 1"
  by (simp add: remove_at_def)

lemma length_insert_at: "length (insert_at xs i x) = Suc (length xs)"
  by (simp add: insert_at_def)

lemma insert_at_nth: "i \<le> length xs \<Longrightarrow> insert_at xs i x ! i = x"
  by (simp add: insert_at_def take_insert_nth)

lemma remove_insert_at: "i \<le> length xs \<Longrightarrow> remove_at (insert_at xs i x) i = xs"
  by (simp add: insert_at_def remove_at_def remove_inserted)

lemma insert_remove_at: "i < length xs \<Longrightarrow> insert_at (remove_at xs i) i (xs ! i) = xs"
  by (simp add: insert_at_def remove_at_def min_def insert_removed)

lemma mset_remove_at: "i < length xs \<Longrightarrow> mset xs = add_mset (xs ! i) (mset (remove_at xs i))"
proof -
  assume i: "i < length xs"
  have "mset xs = mset (take i xs @ xs ! i # drop (Suc i) xs)"
    using i by (simp add: insert_removed)
  then show ?thesis by (simp add: remove_at_def)
qed

lemma mset_insert_at: "mset (insert_at xs i x) = add_mset x (mset xs)"
proof -
  have "mset (take i xs) + mset (drop i xs) = mset xs"
    by (metis append_take_drop_id mset_append)
  then show ?thesis by (simp add: insert_at_def)
qed

subsection \<open>Moves from a valid index\<close>

lemma movableD:
  assumes "movable s frm dst fi"
  shows "map_of s frm = Some (Some (or_empty s frm))"
    and "map_of s dst = Some (Some (or_empty s dst))"
    and "0 \<le> fi" and "nat fi < length (or_empty s frm)"
  using assms by (auto simp: movable_def is_listD)

text \<open>What a move does when both lists exist and \<open>fromIndex\<close> is in range.\<close>

lemma move_movable:
  assumes "movable s frm dst fi"
  shows "move s frm dst fi ti =
     AList.update dst
       (Some (insert_at (if frm = dst then remove_at (or_empty s frm) (nat fi) else or_empty s dst)
                (landing s frm dst fi ti) (or_empty s frm ! nat fi)))
       (AList.update frm (Some (remove_at (or_empty s frm) (nat fi))) s)"
proof -
  note d = movableD [OF assms]
  have s1: "AList.update frm (Some (or_empty s frm)) s = s"
    using d(1) by (simp add: update_triv)
  have s2: "AList.update dst (Some (or_empty s dst)) s = s"
    using d(2) by (simp add: update_triv)
  have rm: "splice (or_empty s frm) fi 1 [] =
      ([or_empty s frm ! nat fi], remove_at (or_empty s frm) (nat fi))"
    using d(3,4) by (simp add: splice_remove_valid remove_at_def)
  show ?thesis
  proof (cases "frm = dst")
    case True
    then show ?thesis
      unfolding move_def s1 s2 Let_def rm
      by (simp add: splice_insert_rel first_of_def landing_def)
  next
    case False
    then show ?thesis
      unfolding move_def s1 s2 Let_def rm
      by (simp add: splice_insert_rel first_of_def landing_def)
  qed
qed

lemma is_list_not_inherited: "is_list s k \<Longrightarrow> \<not> inherited s k"
  by (auto simp: is_list_def inherited_def split: option.splits)

lemma dragReducer_MOVE:
  "\<not> inherited s frm \<Longrightarrow> \<not> inherited s dst \<Longrightarrow>
   dragReducer g (Obj s) (MOVE frm dst fi ti) = Inr (g, Obj (move s frm dst fi ti))"
  by simp

lemma dragReducer_movable:
  "movable s frm dst fi \<Longrightarrow>
   dragReducer g (Obj s) (MOVE frm dst fi ti) = Inr (g, Obj (move s frm dst fi ti))"
  by (simp add: movable_def is_list_not_inherited)

lemma valid_moveD:
  assumes "valid_move s frm dst fi ti"
  shows "map_of s frm = Some (Some (or_empty s frm))"
    and "map_of s dst = Some (Some (or_empty s dst))"
    and "0 \<le> fi" and "nat fi < length (or_empty s frm)" and "0 \<le> ti"
    and "nat ti \<le> length (or_empty s dst)"
    and "frm = dst \<Longrightarrow> nat ti < length (or_empty s dst)"
  using assms by (auto simp: valid_move_def movable_def is_listD split: if_splits)

lemma valid_move_movable: "valid_move s frm dst fi ti \<Longrightarrow> movable s frm dst fi"
  by (simp add: valid_move_def)

text \<open>For a valid move the insertion is not clamped: the issue lands at \<open>toIndex\<close>.\<close>

lemma landing_valid:
  assumes "valid_move s frm dst fi ti"
  shows "landing s frm dst fi ti = nat ti"
proof -
  note v = valid_moveD [OF assms]
  have "nat ti \<le> length (if frm = dst then remove_at (or_empty s frm) (nat fi)
      else or_empty s dst)"
    using v(4,6,7) by (auto simp: length_remove_at)
  then show ?thesis
    using v(5) by (simp add: landing_def rel_index_valid)
qed

text \<open>A valid move in closed form.\<close>

lemma move_valid_move:
  assumes "valid_move s frm dst fi ti"
  shows "move s frm dst fi ti =
     AList.update dst
       (Some (insert_at (if frm = dst then remove_at (or_empty s frm) (nat fi) else or_empty s dst)
                (nat ti) (or_empty s frm ! nat fi)))
       (AList.update frm (Some (remove_at (or_empty s frm) (nat fi))) s)"
  using move_movable [OF valid_move_movable [OF assms], of ti] landing_valid [OF assms]
  by simp

lemma move_preserves_elems:
  assumes "movable s frm dst fi"
  shows "mset (all_elems (move s frm dst fi ti)) = mset (all_elems s)"
proof -
  note v = movableD [OF assms]
  define xs where "xs = or_empty s frm"
  define rest where "rest = remove_at xs (nat fi)"
  define base where "base = (if frm = dst then rest else or_empty s dst)"
  define ins where "ins = insert_at base (landing s frm dst fi ti) (xs ! nat fi)"
  define s3 where "s3 = AList.update frm (Some rest) s"
  have mv: "move s frm dst fi ti = AList.update dst (Some ins) s3"
    using move_movable [OF assms, of ti]
    by (simp add: xs_def rest_def base_def ins_def s3_def)
  have xs_split: "mset xs = mset rest + {#xs ! nat fi#}"
    using v(4) mset_remove_at [of "nat fi" xs] by (simp add: xs_def rest_def)
  have ins_split: "mset ins = mset base + {#xs ! nat fi#}"
    by (simp add: ins_def mset_insert_at)
  have e3: "mset (all_elems s3) + mset xs = mset (all_elems s) + mset rest"
    unfolding s3_def using all_elems_update [OF v(1)] by (simp add: xs_def)
  have d3: "map_of s3 dst = Some (Some base)"
    using v(2) by (simp add: s3_def base_def update_conv')
  have e4: "mset (all_elems (AList.update dst (Some ins) s3)) + mset base
      = mset (all_elems s3) + mset ins"
    by (rule all_elems_update [OF d3])
  have "mset (all_elems (move s frm dst fi ti)) + mset base + mset xs
      = mset (all_elems s) + mset base + mset xs"
    using e3 e4 xs_split ins_split by (simp add: mv)
  then show ?thesis by simp
qed

text \<open>
  C1. For every object state and every \<open>MOVE\<close> between two of its lists from a valid
  \<open>fromIndex\<close>, whatever \<open>toIndex\<close> is (so for every valid insertion position), the reducer
  returns an object state with the same total number of issues summed over all lists
  (and the same total number of array elements); the module-level variables are
  untouched.
\<close>

theorem move_preserves_total_issues:
  assumes "movable s frm dst fromIndex"
  shows "\<exists>s'. dragReducer g (Obj s) (MOVE frm dst fromIndex toIndex) = Inr (g, Obj s') \<and>
           total_issues s' = total_issues s \<and>
           length (all_elems s') = length (all_elems s)"
proof -
  have m: "mset (all_elems (move s frm dst fromIndex toIndex)) = mset (all_elems s)"
    by (rule move_preserves_elems [OF assms])
  have "total_issues (move s frm dst fromIndex toIndex) = total_issues s"
    unfolding total_issues_def using m by (metis mset_filter size_mset)
  moreover have "length (all_elems (move s frm dst fromIndex toIndex)) = length (all_elems s)"
    using m by (metis size_mset)
  ultimately show ?thesis
    using dragReducer_movable [OF assms, of g toIndex] by (simp del: dragReducer.simps)
qed

theorem move_preserves_total_issues_witness:
  "movable (boardAB (Some issue1) (Some issue2)) ''A'' ''B'' 0 \<and>
   (\<exists>s'. dragReducer initialGlobals (Obj (boardAB (Some issue1) (Some issue2))) (MOVE ''A'' ''B'' 0 0)
            = Inr (initialGlobals, Obj s') \<and>
          total_issues s' = 2 \<and> length (all_elems s') = 2)"
proof -
  have h: "movable (boardAB (Some issue1) (Some issue2)) ''A'' ''B'' 0"
    by (simp add: movable_def is_list_def or_empty_def boardAB_def)
  have t: "total_issues (boardAB (Some issue1) (Some issue2)) = 2"
    "length (all_elems (boardAB (Some issue1) (Some issue2))) = 2"
    by (simp_all add: total_issues_def all_elems_def boardAB_def)
  show ?thesis
    using h move_preserves_total_issues [OF h, of initialGlobals 0] by (simp add: t)
qed

subsection \<open>Lengths, identity of the moved issue, round trip\<close>

lemma or_empty_move_to:
  assumes "movable s frm dst fi"
  shows "or_empty (move s frm dst fi ti) dst =
     insert_at (if frm = dst then remove_at (or_empty s frm) (nat fi) else or_empty s dst)
       (landing s frm dst fi ti) (or_empty s frm ! nat fi)"
  by (simp add: move_movable [OF assms])

lemma or_empty_move_from:
  assumes "movable s frm dst fi" and "frm \<noteq> dst"
  shows "or_empty (move s frm dst fi ti) frm = remove_at (or_empty s frm) (nat fi)"
  using assms(2) by (simp add: move_movable [OF assms(1)])

text \<open>
  C2. For a \<open>MOVE\<close> between two lists of the state from a valid \<open>fromIndex\<close>: the \<open>to\<close>
  list grows by one (keeps its length when \<open>from = to\<close>), the \<open>from\<close> list shrinks by one
  (unless \<open>from = to\<close>), and the element found at the landing position of the \<open>to\<close> list
  is the very element that was at \<open>fromIndex\<close> of the \<open>from\<close> list, so the moved issue
  keeps its id and content. For a valid move the landing position is \<open>toIndex\<close>. On the
  board \<^verbatim>\<open>{A: [x, y], B: []}\<close>, moving from \<open>A\<close> index 0 to \<open>B\<close> index 0 gives
  \<^verbatim>\<open>{A: [y], B: [x]}\<close>.
\<close>

theorem move_lengths_and_identity:
  "(movable s frm dst fromIndex \<longrightarrow>
      dragReducer g (Obj s) (MOVE frm dst fromIndex toIndex) =
        Inr (g, Obj (move s frm dst fromIndex toIndex)) \<and>
      length (or_empty (move s frm dst fromIndex toIndex) dst) =
        (if frm = dst then length (or_empty s dst) else length (or_empty s dst) + 1) \<and>
      (frm \<noteq> dst \<longrightarrow>
         length (or_empty (move s frm dst fromIndex toIndex) frm) + 1 = length (or_empty s frm)) \<and>
      or_empty (move s frm dst fromIndex toIndex) dst ! landing s frm dst fromIndex toIndex =
        or_empty s frm ! nat fromIndex) \<and>
   (valid_move s frm dst fromIndex toIndex \<longrightarrow>
      landing s frm dst fromIndex toIndex = nat toIndex) \<and>
   dragReducer g (Obj (boardAB x y)) (MOVE ''A'' ''B'' 0 0) =
     Inr (g, Obj [(''A'', Some [y]), (''B'', Some [x])])"
proof -
  have "move (boardAB x y) ''A'' ''B'' 0 0 = [(''A'', Some [y]), (''B'', Some [x])]"
    by (simp add: boardAB_def move_def or_empty_def splice_def rel_index_def first_of_def)
  moreover have "\<not> inherited (boardAB x y) ''A''" "\<not> inherited (boardAB x y) ''B''"
    by (simp_all add: inherited_def boardAB_def)
  ultimately have scen: "dragReducer g (Obj (boardAB x y)) (MOVE ''A'' ''B'' 0 0) =
      Inr (g, Obj [(''A'', Some [y]), (''B'', Some [x])])"
    by (simp add: dragReducer_MOVE)
  have gen: "length (or_empty (move s frm dst fromIndex toIndex) dst) =
        (if frm = dst then length (or_empty s dst) else length (or_empty s dst) + 1) \<and>
      (frm \<noteq> dst \<longrightarrow>
         length (or_empty (move s frm dst fromIndex toIndex) frm) + 1 = length (or_empty s frm)) \<and>
      or_empty (move s frm dst fromIndex toIndex) dst ! landing s frm dst fromIndex toIndex =
        or_empty s frm ! nat fromIndex"
    if v: "movable s frm dst fromIndex"
  proof -
    note d = movableD [OF v]
    have l1: "length (or_empty (move s frm dst fromIndex toIndex) dst) =
        (if frm = dst then length (or_empty s dst) else length (or_empty s dst) + 1)"
      using d(4) by (auto simp: or_empty_move_to [OF v] length_insert_at length_remove_at)
    have l2: "length (or_empty (move s frm dst fromIndex toIndex) frm) + 1 = length (or_empty s frm)"
      if "frm \<noteq> dst"
      using d(4) by (simp add: or_empty_move_from [OF v that] length_remove_at)
    have pos: "landing s frm dst fromIndex toIndex \<le> length
        (if frm = dst then remove_at (or_empty s frm) (nat fromIndex) else or_empty s dst)"
      unfolding landing_def by (rule rel_index_le)
    have l3: "or_empty (move s frm dst fromIndex toIndex) dst ! landing s frm dst fromIndex toIndex =
        or_empty s frm ! nat fromIndex"
      unfolding or_empty_move_to [OF v] by (rule insert_at_nth [OF pos])
    from l1 l2 l3 show ?thesis by blast
  qed
  from scen gen landing_valid [of s frm dst fromIndex toIndex]
    dragReducer_movable [of s frm dst fromIndex g toIndex]
  show ?thesis by (simp del: dragReducer.simps)
qed

theorem move_lengths_and_identity_witness:
  "movable (boardAB (Some issue1) (Some issue2)) ''A'' ''B'' 0 \<and>
   valid_move (boardAB (Some issue1) (Some issue2)) ''A'' ''B'' 0 0 \<and> ''A'' \<noteq> ''B'' \<and>
   length (or_empty (move (boardAB (Some issue1) (Some issue2)) ''A'' ''B'' 0 0) ''B'') = 1 \<and>
   length (or_empty (move (boardAB (Some issue1) (Some issue2)) ''A'' ''B'' 0 0) ''A'') + 1 = 2 \<and>
   landing (boardAB (Some issue1) (Some issue2)) ''A'' ''B'' 0 0 = 0 \<and>
   or_empty (move (boardAB (Some issue1) (Some issue2)) ''A'' ''B'' 0 0) ''B'' ! 0 = Some issue1"
proof -
  have h: "valid_move (boardAB (Some issue1) (Some issue2)) ''A'' ''B'' 0 0"
    by (simp add: valid_move_def movable_def is_list_def or_empty_def boardAB_def)
  have m: "movable (boardAB (Some issue1) (Some issue2)) ''A'' ''B'' 0"
    using h by (rule valid_move_movable)
  have ne: "''A'' \<noteq> ''B''" by simp
  have o: "or_empty (boardAB (Some issue1) (Some issue2)) ''A'' = [Some issue1, Some issue2]"
    "or_empty (boardAB (Some issue1) (Some issue2)) ''B'' = []"
    by (simp_all add: or_empty_def boardAB_def)
  note th = move_lengths_and_identity
    [of "boardAB (Some issue1) (Some issue2)" "''A''" "''B''" 0 initialGlobals 0
      "Some issue1" "Some issue2"]
  have l: "landing (boardAB (Some issue1) (Some issue2)) ''A'' ''B'' 0 0 = 0"
    using th [THEN conjunct2, THEN conjunct1, THEN mp, OF h] by simp
  show ?thesis
    using h m ne l th [THEN conjunct1, THEN mp, OF m] by (simp add: o)
qed

text \<open>
  C6. A valid \<open>MOVE from to fromIndex toIndex\<close> followed by
  \<open>MOVE to from toIndex fromIndex\<close> returns the original state, key order included.
\<close>

theorem move_round_trip:
  assumes "valid_move s frm dst fromIndex toIndex"
  shows "\<exists>s1. dragReducer g (Obj s) (MOVE frm dst fromIndex toIndex) = Inr (g, Obj s1) \<and>
           dragReducer g (Obj s1) (MOVE dst frm toIndex fromIndex) = Inr (g, Obj s)"
proof -
  note d = valid_moveD [OF assms]
  define xs where "xs = or_empty s frm"
  define ys where "ys = or_empty s dst"
  define rest where "rest = remove_at xs (nat fromIndex)"
  define base where "base = (if frm = dst then rest else ys)"
  define ins where "ins = insert_at base (nat toIndex) (xs ! nat fromIndex)"
  define s1 where "s1 = move s frm dst fromIndex toIndex"
  have s1: "s1 = AList.update dst (Some ins) (AList.update frm (Some rest) s)"
    unfolding s1_def move_valid_move [OF assms]
    by (simp add: xs_def ys_def rest_def base_def ins_def)
  have i: "nat fromIndex < length xs"
    using d(4) by (simp add: xs_def)
  have lrest: "length rest + 1 = length xs"
    using i by (simp add: rest_def length_remove_at)
  have pos: "nat toIndex \<le> length base"
    using d(6,7) lrest by (auto simp: base_def ys_def xs_def)
  have back_rm: "remove_at ins (nat toIndex) = base"
    using pos by (simp add: ins_def remove_insert_at)
  have back_el: "ins ! nat toIndex = xs ! nat fromIndex"
    using pos by (simp add: ins_def insert_at_nth)
  have back_ins: "insert_at rest (nat fromIndex) (xs ! nat fromIndex) = xs"
    using i by (simp add: rest_def insert_remove_at)
  have m_dst: "map_of s1 dst = Some (Some ins)"
    by (simp add: s1 update_conv')
  have m_frm: "map_of s1 frm = Some (Some (if frm = dst then ins else rest))"
    by (simp add: s1 update_conv')
  have o_dst: "or_empty s1 dst = ins" and o_frm: "or_empty s1 frm = (if frm = dst then ins else rest)"
    using m_dst m_frm by (simp_all add: or_empty_Some)
  have v2: "valid_move s1 dst frm toIndex fromIndex"
  proof -
    have "frm = dst \<Longrightarrow> length base = length rest"
      by (simp add: base_def)
    then show ?thesis
      using d(3,5) pos i lrest m_dst m_frm
      by (auto simp: valid_move_def movable_def is_list_def o_dst o_frm ins_def length_insert_at)
  qed
  have "move s1 dst frm toIndex fromIndex = s"
  proof (cases "frm = dst")
    case True
    have "move s1 dst frm toIndex fromIndex =
        AList.update dst (Some xs) (AList.update dst (Some base) s1)"
      unfolding move_valid_move [OF v2] using True
      by (simp add: o_dst back_rm back_el back_ins base_def)
    also have "\<dots> = AList.update dst (Some xs) s"
      using True by (simp add: s1)
    also have "\<dots> = s"
      using d(1) True by (simp add: xs_def update_triv)
    finally show ?thesis .
  next
    case False
    have "move s1 dst frm toIndex fromIndex =
        AList.update frm (Some xs) (AList.update dst (Some ys) s1)"
      unfolding move_valid_move [OF v2] using False
      by (simp add: o_dst o_frm back_rm back_el back_ins base_def)
    also have "\<dots> = s"
      unfolding s1 using False d(1,2)
      by (simp add: update_restore2 xs_def ys_def)
    finally show ?thesis .
  qed
  then show ?thesis
    using dragReducer_movable [OF valid_move_movable [OF assms], of g toIndex]
      dragReducer_movable [OF valid_move_movable [OF v2], of g fromIndex]
    by (simp add: s1_def del: dragReducer.simps)
qed

theorem move_round_trip_witness:
  "valid_move (boardAB (Some issue1) (Some issue2)) ''A'' ''B'' 0 0 \<and>
   (\<exists>s1. dragReducer initialGlobals (Obj (boardAB (Some issue1) (Some issue2)))
            (MOVE ''A'' ''B'' 0 0) = Inr (initialGlobals, Obj s1) \<and>
          dragReducer initialGlobals (Obj s1) (MOVE ''B'' ''A'' 0 0) =
            Inr (initialGlobals, Obj (boardAB (Some issue1) (Some issue2))))"
proof -
  have h: "valid_move (boardAB (Some issue1) (Some issue2)) ''A'' ''B'' 0 0"
    by (simp add: valid_move_def movable_def is_list_def or_empty_def boardAB_def)
  show ?thesis
    using h move_round_trip [OF h, of initialGlobals] by (intro conjI)
qed

text \<open>
  C7. Moving the issue at a valid index \<open>i\<close> of a list \<open>l\<close> to index \<open>i\<close> of the same
  list returns the input state.
\<close>

theorem move_same_place_identity:
  assumes "is_list s l" and "0 \<le> i" and "i < int (length (or_empty s l))"
  shows "dragReducer g (Obj s) (MOVE l l i i) = Inr (g, Obj s)"
proof -
  have v: "valid_move s l l i i"
    using assms by (simp add: valid_move_def movable_def)
  note d = valid_moveD [OF v]
  have "move s l l i i = AList.update l (Some (or_empty s l)) s"
    unfolding move_valid_move [OF v] using d(4) by (simp add: insert_remove_at)
  also have "\<dots> = s"
    using d(1) by (simp add: update_triv)
  finally show ?thesis
    using dragReducer_movable [OF valid_move_movable [OF v], of g i]
    by (simp del: dragReducer.simps)
qed

theorem move_same_place_identity_witness:
  "is_list (boardAB (Some issue1) (Some issue2)) ''A'' \<and> (0::int) \<le> 1 \<and>
   1 < int (length (or_empty (boardAB (Some issue1) (Some issue2)) ''A'')) \<and>
   dragReducer initialGlobals (Obj (boardAB (Some issue1) (Some issue2))) (MOVE ''A'' ''A'' 1 1) =
     Inr (initialGlobals, Obj (boardAB (Some issue1) (Some issue2)))"
proof -
  have a: "is_list (boardAB (Some issue1) (Some issue2)) ''A''"
    by (simp add: is_list_def boardAB_def)
  have b: "(0::int) \<le> 1" by simp
  have c: "1 < int (length (or_empty (boardAB (Some issue1) (Some issue2)) ''A''))"
    by (simp add: or_empty_def boardAB_def)
  show ?thesis
    using a b c move_same_place_identity [OF a b c, of initialGlobals] by (intro conjI)
qed

text \<open>
  The limit of the round trip: within one list, \<open>toIndex = length\<close> is past the end of
  the list once the issue is removed. The insertion is clamped, the issue lands at
  \<open>length - 1\<close>, and the reverse move finds nothing at \<open>toIndex\<close>: it inserts
  \<^verbatim>\<open>undefined\<close>. Such a \<open>toIndex\<close> is not a valid insertion position.
\<close>

lemma move_past_end_no_round_trip:
  "\<not> valid_move [(''A'', Some [x, y])] ''A'' ''A'' 0 2 \<and>
   move [(''A'', Some [x, y])] ''A'' ''A'' 0 2 = [(''A'', Some [y, x])] \<and>
   move [(''A'', Some [y, x])] ''A'' ''A'' 2 0 = [(''A'', Some [None, y, x])]"
  by (simp add: valid_move_def movable_def move_def or_empty_def splice_def rel_index_def
      first_of_def)

subsection \<open>Decimal strings are injective\<close>




lemma toString_small: "n < 10 \<Longrightarrow> toString n = [digit n]"
  by (simp add: toString.simps)


lemma toString_not_Nil [simp]: "toString n \<noteq> []" "[] \<noteq> toString n"
  by (subst toString.simps, simp)+


lemma toString_7: "toString 7 = ''7''" and toString_8: "toString 8 = ''8''"
  by (simp_all add: toString_small digit_def)


subsection \<open>The bulk update\<close>

text \<open>Whatever is supplied, every entry of the result of \<open>UPDATE\<close> holds \<open>myData1\<close>.\<close>

lemma update_case_result:
  "snd (update_case g myData1 myData2 myData3) =
     ObjArr (map (\<lambda>item. [(item, myData1)]) (issueListsNames g))"
  by (simp add: update_case_def)

text \<open>
  C4. The bulk update is to return a mapping from list name to the supplied sequence,
  with every issue id in at most one list. The code does not: on the input below, three
  sequences with disjoint ids, the result is an array of three one-property objects
  that all hold the first sequence; the second sequence is only kept in \<^verbatim>\<open>test\<close>.
\<close>

theorem update_at_failing_input:
  "dragReducer initialGlobals initialState
       (UPDATE (Some [Some issue1]) (Some [Some issue2]) (Some [])) =
     Inr (initialGlobals
            \<lparr>test := (\<lambda>_. None)(0 := Some [Some issue1], 1 := Some [Some issue2], 2 := Some [])\<rparr>,
          ObjArr [[(''items'', Some [Some issue1])], [(''items2'', Some [Some issue1])],
                  [(''items3'', Some [Some issue1])]])"
  by (simp add: update_case_def initialGlobals_def)

text \<open>
  The program's own dispatch: the first click on \<^verbatim>\<open>Add Issue\<close> sends the lists of the
  initial state, of which only \<^verbatim>\<open>items\<close> exists. Every name then holds the initial data.
\<close>

lemma update_on_first_click:
  "map_sum id snd
     (dragReducer initialGlobals initialState
        (UPDATE (getProp initialState ''items'') (getProp initialState ''items2'')
           (getProp initialState ''items3''))) =
   Inr (ObjArr [[(''items'', Some data)], [(''items2'', Some data)], [(''items3'', Some data)]])"
  by (simp add: update_case_def initialGlobals_def initialState_def)

subsection \<open>Moves that name a missing list\<close>
















subsection \<open>Indices out of range\<close>




subsection \<open>The counter and the ids on the board\<close>






lemma limit_value: "limit = 9007199254740992"
  by (simp add: limit_def)
















text \<open>The two handlers in closed form.\<close>

lemma addListClick_eq:
  "addListClick g st =
     Inr (g\<lparr>issueListsNames := issueListsNames g @ [''items'' @ toString (issueIdIncrement g)],
            issueIdIncrement := increment (issueIdIncrement g)\<rparr>,
          updatelists
            (g\<lparr>issueListsNames :=
                 issueListsNames g @ [''items'' @ toString (issueIdIncrement g)],
               issueIdIncrement := increment (issueIdIncrement g)\<rparr>) st)"
  by (simp add: addListClick_def Let_def)

lemma addIssueClick_eq:
  "\<exists>g'. addIssueClick index g st = Inr (g', Obj (afterAddIssue (issueIdIncrement g) st)) \<and>
        issueIdIncrement g' = increment (issueIdIncrement g) \<and>
        issueListsNames g' = issueListsNames g"
  by (simp add: addIssueClick_def update_case_def additem_def Let_def afterAddIssue_def
      listOf_def split: option.splits)


subsection \<open>Invariants of the states the program reaches\<close>








subsection \<open>Generated list names\<close>




text \<open>
  After a click on \<^verbatim>\<open>Add Issue List\<close> the state is an array of one-property objects.
  \<^verbatim>\<open>state[item]\<close>, which the rendering and the next handlers read, is \<^verbatim>\<open>undefined\<close> for
  every list name, the new one included.
\<close>

lemma addListClick_no_list:
  "\<exists>g' a. addListClick g st = Inr (g', ObjArr a) \<and> (\<forall>k. getProp (ObjArr a) k = None) \<and>
     length a = Suc (length (issueListsNames g))"
  by (simp add: addListClick_eq updatelists_def)




subsection \<open>Generated issue ids\<close>

text \<open>
  A click on \<^verbatim>\<open>Add Issue\<close> returns an object with the three properties of line 54
  whatever the state was: \<^verbatim>\<open>items\<close> holds a new array, the old list \<^verbatim>\<open>items\<close> followed by
  the new issue, and this for the button of every list.
\<close>

lemma addIssueClick_items:
  "\<exists>g' s'. addIssueClick index g st = Inr (g', Obj s') \<and>
     map fst s' = [''items'', ''items2'', ''items3''] \<and>
     getProp (Obj s') ''items'' =
       Some (listOf (getProp st ''items'') @ [Some (newIssue (increment (issueIdIncrement g)))]) \<and>
     getProp (Obj s') ''items2'' = getProp st ''items2'' \<and>
     getProp (Obj s') ''items3'' = getProp st ''items3'' \<and>
     issueIdIncrement g' = increment (issueIdIncrement g)"
  using addIssueClick_eq [of index g st] by (auto simp: afterAddIssue_def)

text \<open>
  The scenario of the specification, a board with the one list \<^verbatim>\<open>A\<close>, which the program
  itself never reaches: after one click the state has no property \<^verbatim>\<open>A\<close>.
\<close>

lemma addIssueClick_scenario:
  "map_sum id snd
     (addIssueClick 0 (initialGlobals\<lparr>issueListsNames := [''A'']\<rparr>) (Obj [(''A'', Some [])])) =
   Inr (Obj [(''items'', Some [Some issue7]), (''items2'', None), (''items3'', None)])"
  by (simp add: addIssueClick_def update_case_def additem_def Let_def initialGlobals_def
      newIssue_def issue7_def toString_7 increment_def limit_value)






subsection \<open>The store: what is written\<close>

lemma newArray_simps [simp]:
  "fst (newArray h) = nextAddr h"
  "cells (snd (newArray h)) = (cells h)(nextAddr h := [])"
  "nextAddr (snd (newArray h)) = Suc (nextAddr h)"
  by (simp_all add: newArray_def)

lemma push_simps [simp]:
  "cells (push h a x) = (cells h)(a := cells h a @ [x])"
  "nextAddr (push h a x) = nextAddr h"
  by (simp_all add: push_def)










subsection \<open>The store: what is read from it\<close>











text \<open>The \<^verbatim>\<open>MOVE\<close> case as two updates, with the two splices of lines 34 and 35.\<close>
















subsection \<open>Determinism and mutation\<close>




end
